theory Spec2Isabelle
  imports Main "HOL-Library.Word"
begin

unbundle bit_operations_syntax

chapter \<open>The sbepp runtime (sbepp.hpp): model\<close>

text \<open>
  Conventions of the embedding.
  \<^item> A pointer is a natural number, the address; \<open>0\<close> is \<^verbatim>\<open>nullptr\<close>. Memory is a total
    map from addresses to bytes. Pointer arithmetic is unbounded (overflowing a pointer
    is undefined in C++ and no operation here relies on it).
  \<^item> \<^verbatim>\<open>std::size_t\<close> is 64 bits and \<^verbatim>\<open>int\<close> is 32 bits (LP64/LLP64); where the
    source computes in one of these types, the wrap-around or the overflow is written out.
  \<^item> The operations are modelled with size checks compiled in
    (\<^verbatim>\<open>SBEPP_SIZE_CHECKS_ENABLED == 1\<close>). A failed \<^verbatim>\<open>SBEPP_ASSERT\<close> calls the
    \<^verbatim>\<open>[[noreturn]]\<close> assertion handler: the operation ends there with the fault
    \<open>assertion_failed\<close>.
  \<^item> Template parameters become ordinary parameters: the native byte order \<open>native\<close>,
    the schema byte order \<open>E\<close>, the primitive type \<open>T\<close>, and what the generated
    schema classes provide (sentinels, header layouts, entry sizes).
\<close>

section \<open>Faults\<close>

datatype fault = assertion_failed | undefined_behaviour

section \<open>Primitive codec: byteswap, get\_primitive, set\_primitive\<close>

type_synonym byte = "8 word"
type_synonym mem = "nat \<Rightarrow> byte"

datatype endian = little | big

text \<open>The fixed-width integer types. A value is its bit pattern: \<^verbatim>\<open>to_unsigned\<close> and the
  \<^verbatim>\<open>static_cast<T>\<close> back keep the bits, so signed and unsigned types of one width share
  a constructor.\<close>

datatype prim_type = T8 | T16 | T32 | T64

datatype prim = P8 "8 word" | P16 "16 word" | P32 "32 word" | P64 "64 word"

fun sizeof :: "prim_type \<Rightarrow> nat" where
  "sizeof T8 = 1"
| "sizeof T16 = 2"
| "sizeof T32 = 4"
| "sizeof T64 = 8"

fun type_of :: "prim \<Rightarrow> prim_type" where
  "type_of (P8 v) = T8"
| "type_of (P16 v) = T16"
| "type_of (P32 v) = T32"
| "type_of (P64 v) = T64"

text \<open>The portable \<^verbatim>\<open>byteswap\<close> overloads (the last branch of the intrinsics detection).\<close>

definition byteswap64 :: "64 word \<Rightarrow> 64 word" where
  "byteswap64 v =
     push_bit 56 (v AND 0x00000000000000FF)
     OR push_bit 40 (v AND 0x000000000000FF00)
     OR push_bit 24 (v AND 0x0000000000FF0000)
     OR push_bit 8 (v AND 0x00000000FF000000)
     OR drop_bit 8 (v AND 0x000000FF00000000)
     OR drop_bit 24 (v AND 0x0000FF0000000000)
     OR drop_bit 40 (v AND 0x00FF000000000000)
     OR drop_bit 56 (v AND 0xFF00000000000000)"

definition byteswap32 :: "32 word \<Rightarrow> 32 word" where
  "byteswap32 v =
     push_bit 24 (v AND 0x000000FF)
     OR push_bit 8 (v AND 0x0000FF00)
     OR drop_bit 8 (v AND 0x00FF0000)
     OR drop_bit 24 (v AND 0xFF000000)"

definition byteswap16 :: "16 word \<Rightarrow> 16 word" where
  "byteswap16 v = push_bit 8 (v AND 0x00FF) OR drop_bit 8 (v AND 0xFF00)"

text \<open>The overload set as one function. The single-byte case is declared in the source
  but never defined nor called (both callers test \<^verbatim>\<open>sizeof(T) == 1\<close> first).\<close>

fun byteswap :: "prim \<Rightarrow> prim" where
  "byteswap (P64 v) = P64 (byteswap64 v)"
| "byteswap (P32 v) = P32 (byteswap32 v)"
| "byteswap (P16 v) = P16 (byteswap16 v)"
| "byteswap (P8 v) = P8 v"

text \<open>Object representation: the bytes of a value in memory order, as \<^verbatim>\<open>std::memcpy\<close>
  and \<^verbatim>\<open>std::bit_cast\<close> see them on a machine of byte order \<open>native\<close>.\<close>

definition le_bytes :: "nat \<Rightarrow> 'a::len word \<Rightarrow> byte list" where
  "le_bytes n w = map (\<lambda>i. ucast (drop_bit (8 * i) w)) [0..<n]"

fun of_le_bytes :: "byte list \<Rightarrow> 'a::len word" where
  "of_le_bytes [] = 0"
| "of_le_bytes (b # bs) = ucast b OR push_bit 8 (of_le_bytes bs)"

definition native_bytes :: "endian \<Rightarrow> nat \<Rightarrow> 'a::len word \<Rightarrow> byte list" where
  "native_bytes native n w = (if native = little then le_bytes n w else rev (le_bytes n w))"

definition of_native_bytes :: "endian \<Rightarrow> byte list \<Rightarrow> 'a::len word" where
  "of_native_bytes native bs = of_le_bytes (if native = little then bs else rev bs)"

fun object_bytes :: "endian \<Rightarrow> prim \<Rightarrow> byte list" where
  "object_bytes native (P8 v) = native_bytes native 1 v"
| "object_bytes native (P16 v) = native_bytes native 2 v"
| "object_bytes native (P32 v) = native_bytes native 4 v"
| "object_bytes native (P64 v) = native_bytes native 8 v"

fun of_object_bytes :: "endian \<Rightarrow> prim_type \<Rightarrow> byte list \<Rightarrow> prim" where
  "of_object_bytes native T8 bs = P8 (of_native_bytes native bs)"
| "of_object_bytes native T16 bs = P16 (of_native_bytes native bs)"
| "of_object_bytes native T32 bs = P32 (of_native_bytes native bs)"
| "of_object_bytes native T64 bs = P64 (of_native_bytes native bs)"

definition load_bytes :: "mem \<Rightarrow> nat \<Rightarrow> nat \<Rightarrow> byte list" where
  "load_bytes m p n = map (\<lambda>i. m (p + i)) [0..<n]"

definition store_bytes :: "mem \<Rightarrow> nat \<Rightarrow> byte list \<Rightarrow> mem" where
  "store_bytes m p bs = (\<lambda>a. if p \<le> a \<and> a < p + length bs then bs ! (a - p) else m a)"

text \<open>\<^verbatim>\<open>get_primitive<T, E>(ptr)\<close> and \<^verbatim>\<open>set_primitive<E>(ptr, value)\<close>. The flag
  \<open>has_bitcast\<close> selects the \<^verbatim>\<open>SBEPP_HAS_BITCAST\<close> branch (copy or reverse copy of the
  bytes) or the \<^verbatim>\<open>memcpy\<close> branch (byte swap of the value).\<close>

definition get_primitive :: "bool \<Rightarrow> endian \<Rightarrow> endian \<Rightarrow> prim_type \<Rightarrow> mem \<Rightarrow> nat \<Rightarrow> prim" where
  "get_primitive has_bitcast native E T m ptr =
     (if has_bitcast then
        (let arr = (if E = native \<or> sizeof T = 1
                    then load_bytes m ptr (sizeof T)
                    else rev (load_bytes m ptr (sizeof T)))
         in of_object_bytes native T arr)
      else
        (let res = of_object_bytes native T (load_bytes m ptr (sizeof T))
         in if E = native \<or> sizeof T = 1 then res else byteswap res))"

definition set_primitive :: "bool \<Rightarrow> endian \<Rightarrow> endian \<Rightarrow> mem \<Rightarrow> nat \<Rightarrow> prim \<Rightarrow> mem" where
  "set_primitive has_bitcast native E m ptr v =
     (if has_bitcast then
        (let arr = object_bytes native v
         in if E = native \<or> sizeof (type_of v) = 1
            then store_bytes m ptr arr
            else store_bytes m ptr (rev arr))
      else
        (let v' = (if E \<noteq> native \<and> sizeof (type_of v) \<noteq> 1 then byteswap v else v)
         in store_bytes m ptr (object_bytes native v')))"

text \<open>\<^verbatim>\<open>SBEPP_SIZE_CHECK(begin, end, offset, size)\<close>: \<^verbatim>\<open>begin\<close> is not null and
  \<^verbatim>\<open>offset + size <= static_cast<std::size_t>(end - begin)\<close>, both sides in
  \<^verbatim>\<open>std::size_t\<close>.\<close>

definition size_t_of_diff :: "nat \<Rightarrow> nat \<Rightarrow> nat" where
  "size_t_of_diff e b = (if b \<le> e then (e - b) mod 2 ^ 64 else (2 ^ 64 - (b - e) mod 2 ^ 64) mod 2 ^ 64)"

definition SBEPP_SIZE_CHECK :: "nat \<Rightarrow> nat \<Rightarrow> nat \<Rightarrow> nat \<Rightarrow> bool" where
  "SBEPP_SIZE_CHECK b e offset sz =
     (b \<noteq> 0 \<and> (offset + sz) mod 2 ^ 64 \<le> size_t_of_diff e b)"

text \<open>A byte range: \<^verbatim>\<open>begin\<close> and, with size checks compiled in, \<^verbatim>\<open>end\<close>.\<close>

record byte_range =
  addressof :: nat
  end_ptr :: nat

text \<open>\<^verbatim>\<open>detail::get_value<T, U, E>(view, offset)\<close> and \<^verbatim>\<open>detail::set_value<E>(view, offset, value)\<close>.\<close>

definition get_value ::
  "bool \<Rightarrow> endian \<Rightarrow> endian \<Rightarrow> prim_type \<Rightarrow> mem \<Rightarrow> 'x byte_range_scheme \<Rightarrow> nat
     \<Rightarrow> fault + prim" where
  "get_value hb native E U m view offset =
     (if SBEPP_SIZE_CHECK (addressof view) (end_ptr view) offset (sizeof U)
      then Inr (get_primitive hb native E U m (addressof view + offset))
      else Inl assertion_failed)"

definition set_value ::
  "bool \<Rightarrow> endian \<Rightarrow> endian \<Rightarrow> mem \<Rightarrow> 'x byte_range_scheme \<Rightarrow> nat \<Rightarrow> prim
     \<Rightarrow> fault + mem" where
  "set_value hb native E m view offset v =
     (if SBEPP_SIZE_CHECK (addressof view) (end_ptr view) offset (sizeof (type_of v))
      then Inr (set_primitive hb native E m (addressof view + offset) v)
      else Inl assertion_failed)"

section \<open>Scalar wrappers: optional\_base\<close>

text \<open>
  \<^verbatim>\<open>optional_base<T, Derived>\<close> has one member \<^verbatim>\<open>val\<close>, initialised to
  \<^verbatim>\<open>Derived::null_value()\<close>. The sentinel comes from the generated class \<^verbatim>\<open>Derived\<close>,
  so it is the parameter \<open>nv\<close> of the operations that use it. The value type \<open>T\<close> is an
  integer type, with its order: any linear order here. (For \<^verbatim>\<open>float\<close> and \<^verbatim>\<open>double\<close>
  the built-in sentinel is a NaN, whose comparisons are outside this model.)
\<close>

record 'a optional_base =
  val :: 'a














section \<open>Bitset: bitset\_base\<close>

text \<open>
  \<^verbatim>\<open>bits & (1 << n)\<close> and \<^verbatim>\<open>(bits & ~(1 << n)) | (b << n)\<close>, with \<^verbatim>\<open>T bits\<close> an unsigned
  type of 8, 16, 32 or 64 bits and \<^verbatim>\<open>n\<close> a \<^verbatim>\<open>choice_index_t\<close> (\<^verbatim>\<open>std::uint8_t\<close>). The
  literal \<^verbatim>\<open>1\<close> and the promoted \<^verbatim>\<open>b\<close> and \<^verbatim>\<open>n\<close> are \<^verbatim>\<open>int\<close>, so both shifts are computed
  in \<^verbatim>\<open>int\<close>: undefined for \<^verbatim>\<open>n >= 32\<close>, and \<^verbatim>\<open>1 << 31\<close> is \<^verbatim>\<open>INT_MIN\<close> (C++20; the
  two's complement result before). The \<^verbatim>\<open>int\<close> operand then meets \<^verbatim>\<open>bits\<close> under the
  usual arithmetic conversions: for \<open>T\<close> of at most 32 bits the operation is done in 32
  bits (\<^verbatim>\<open>bits\<close> zero-extended) and the result is truncated to \<open>T\<close> on assignment; for a
  64-bit \<open>T\<close> the \<^verbatim>\<open>int\<close> is sign-extended to 64 bits.
\<close>

definition int_shl :: "32 word \<Rightarrow> nat \<Rightarrow> fault + 32 word" where
  "int_shl x n = (if n < 32 then Inr (push_bit n x) else Inl undefined_behaviour)"

definition get_bit :: "'a::len word \<Rightarrow> nat \<Rightarrow> fault + bool" where
  "get_bit bits n =
     (case int_shl 1 n of
        Inl f \<Rightarrow> Inl f
      | Inr s \<Rightarrow>
          Inr (if LENGTH('a) \<le> 32
               then (ucast bits AND s) \<noteq> 0
               else (bits AND scast s) \<noteq> 0))"

definition set_bit :: "'a::len word \<Rightarrow> nat \<Rightarrow> bool \<Rightarrow> fault + 'a word" where
  "set_bit bits n b =
     (case int_shl 1 n of
        Inl f \<Rightarrow> Inl f
      | Inr s \<Rightarrow>
          (case int_shl (of_bool b) n of
             Inl f \<Rightarrow> Inl f
           | Inr t \<Rightarrow>
               Inr (if LENGTH('a) \<le> 32
                    then ucast ((ucast bits AND NOT s) OR t)
                    else (bits AND scast (NOT s)) OR scast t)))"

section \<open>Cursor and cursor wrappers\<close>






text \<open>
  The accessors for the last field of a level. Each takes the cursor's pointer and returns
  the new pointer with its result: the value read (none under \<^verbatim>\<open>skip\<close>, whose accessors
  return \<^verbatim>\<open>void\<close>), the memory written, or the byte range of the field view. \<open>U\<close>
  is the primitive type read; \<open>hb\<close>, \<open>native\<close> and \<open>E\<close> are passed on to the codec.
\<close>






















section \<open>Groups: dimension header, flat\_group\_base, nested\_group\_base\<close>

text \<open>
  Modelled from the spec: the dimension header type \<^verbatim>\<open>Dimension\<close> is generated by the
  schema compiler and is not part of the runtime. It is ``a fixed-size aggregate of fields
  at statically known offsets'' that holds \<^verbatim>\<open>blockLength\<close> and \<^verbatim>\<open>numInGroup\<close>: here a
  layout (the composite's size, and the offset and the unsigned type of each of the two
  fields) whose accessors read through \<^verbatim>\<open>detail::get_value\<close>.
\<close>

record dimension_layout =
  dim_size :: nat
  blockLength_offset :: nat
  blockLength_type :: prim_type
  numInGroup_offset :: nat
  numInGroup_type :: prim_type

definition dim_blockLength ::
  "bool \<Rightarrow> endian \<Rightarrow> endian \<Rightarrow> dimension_layout \<Rightarrow> mem \<Rightarrow> byte_range \<Rightarrow> fault + prim" where
  "dim_blockLength hb native E L m header =
     get_value hb native E (blockLength_type L) m header (blockLength_offset L)"

definition dim_numInGroup ::
  "bool \<Rightarrow> endian \<Rightarrow> endian \<Rightarrow> dimension_layout \<Rightarrow> mem \<Rightarrow> byte_range \<Rightarrow> fault + prim" where
  "dim_numInGroup hb native E L m header =
     get_value hb native E (numInGroup_type L) m header (numInGroup_offset L)"

text \<open>The value of an unsigned primitive.\<close>

fun prim_nat :: "prim \<Rightarrow> nat" where
  "prim_nat (P8 v) = unat v"
| "prim_nat (P16 v) = unat v"
| "prim_nat (P32 v) = unat v"
| "prim_nat (P64 v) = unat v"

text \<open>\<^verbatim>\<open>operator()(get_header_tag)\<close>, the same in both group bases.\<close>

definition group_get_header :: "dimension_layout \<Rightarrow> byte_range \<Rightarrow> fault + byte_range" where
  "group_get_header L g =
     (if SBEPP_SIZE_CHECK (addressof g) (end_ptr g) 0 (dim_size L)
      then Inr \<lparr>addressof = addressof g, end_ptr = end_ptr g\<rparr>
      else Inl assertion_failed)"

text \<open>
  The product \<^verbatim>\<open>numInGroup().value() * blockLength().value()\<close> of two unsigned values,
  under the usual arithmetic conversions: in \<^verbatim>\<open>unsigned long\<close> when an operand has 64
  bits, else in \<^verbatim>\<open>unsigned int\<close> when an operand has 32 bits (both wrap around), else both
  operands are promoted to \<^verbatim>\<open>int\<close>, where overflow is undefined.
\<close>

definition promoted_mul :: "prim \<Rightarrow> prim \<Rightarrow> fault + nat" where
  "promoted_mul a b =
     (let w = max (sizeof (type_of a)) (sizeof (type_of b)); p = prim_nat a * prim_nat b
      in if w = 8 then Inr (p mod 2 ^ 64)
         else if w = 4 then Inr (p mod 2 ^ 32)
         else if p < 2 ^ 31 then Inr p
         else Inl undefined_behaviour)"

text \<open>\<^verbatim>\<open>flat_group_base::operator()(size_bytes_tag)\<close>; the sum is a \<^verbatim>\<open>std::size_t\<close>.\<close>

definition flat_group_size_bytes ::
  "bool \<Rightarrow> endian \<Rightarrow> endian \<Rightarrow> dimension_layout \<Rightarrow> mem \<Rightarrow> byte_range \<Rightarrow> fault + nat" where
  "flat_group_size_bytes hb native E L m g =
     (case group_get_header L g of
        Inl f \<Rightarrow> Inl f
      | Inr dimension \<Rightarrow>
          (case dim_numInGroup hb native E L m dimension of
             Inl f \<Rightarrow> Inl f
           | Inr n \<Rightarrow>
               (case dim_blockLength hb native E L m dimension of
                  Inl f \<Rightarrow> Inl f
                | Inr bl \<Rightarrow>
                    (case promoted_mul n bl of
                       Inl f \<Rightarrow> Inl f
                     | Inr p \<Rightarrow> Inr ((dim_size L + p) mod 2 ^ 64)))))"

text \<open>A layout whose two fields lie inside the composite.\<close>

definition layout_ok :: "dimension_layout \<Rightarrow> bool" where
  "layout_ok L \<longleftrightarrow>
     dim_size L < 2 ^ 64
     \<and> blockLength_offset L + sizeof (blockLength_type L) \<le> dim_size L
     \<and> numInGroup_offset L + sizeof (numInGroup_type L) \<le> dim_size L"

text \<open>A group entry (\<^verbatim>\<open>entry_base\<close>): a byte range with the block length taken from the
  header of the enclosing group.\<close>

record entry = byte_range +
  entry_block_length :: nat

text \<open>\<^verbatim>\<open>forward_iterator\<close>, with \<^verbatim>\<open>IndexType\<close> the unsigned type of
  \<^verbatim>\<open>numInGroup\<close>: the index type \<open>'i\<close> is a word, which wraps around. The size of an entry
  (\<^verbatim>\<open>size_bytes(operator*())\<close>) is computed by the generated entry class from the entry's
  own content: it is the parameter \<open>entry_size\<close>, which may itself fail a size check.\<close>

record 'i forward_iterator =
  fi_ptr :: nat
  fi_index :: 'i
  fi_block_length :: nat
  fi_end :: nat

definition fi_deref :: "'a::len word forward_iterator \<Rightarrow> entry" where
  "fi_deref it =
     \<lparr>addressof = fi_ptr it, end_ptr = fi_end it, entry_block_length = fi_block_length it\<rparr>"

definition fi_increment ::
  "(entry \<Rightarrow> fault + nat) \<Rightarrow> 'a::len word forward_iterator \<Rightarrow> fault + 'a word forward_iterator" where
  "fi_increment entry_size it =
     (case entry_size (fi_deref it) of
        Inl f \<Rightarrow> Inl f
      | Inr s \<Rightarrow>
          if SBEPP_SIZE_CHECK (fi_ptr it) (fi_end it) 0 s
          then Inr (it\<lparr>fi_ptr := fi_ptr it + s, fi_index := fi_index it + 1\<rparr>)
          else Inl assertion_failed)"

definition fi_equal :: "'a::len word forward_iterator \<Rightarrow> 'a word forward_iterator \<Rightarrow> bool" where
  "fi_equal lhs rhs = (fi_index lhs = fi_index rhs)"

text \<open>The loop below ends: each increment brings the index one step closer to the end
  index, in the arithmetic of the index type.\<close>

lemma index_distance_decreases:
  "(e :: 'a::len word) \<noteq> i \<Longrightarrow> unat (e - (i + 1)) < unat (e - i)"
proof -
  assume "e \<noteq> i"
  then have "e - i \<noteq> 0" by simp
  then have "unat (e - i - 1) < unat (e - i)"
    by (simp add: unat_minus_one unat_gt_0)
  then show ?thesis by (simp add: diff_diff_eq add.commute)
qed

text \<open>The range-based \<^verbatim>\<open>for\<close> loop over a nested group,
  \<^verbatim>\<open>for(it = begin(); it != end(); ++it) body(*it)\<close>, with the loop's state \<open>s\<close> threaded
  through the body. It returns the final state and the iterator at which the loop ended.\<close>

function range_for ::
  "(entry \<Rightarrow> fault + nat) \<Rightarrow> (entry \<Rightarrow> 's \<Rightarrow> fault + 's) \<Rightarrow>
     'a::len word forward_iterator \<Rightarrow> 'a word forward_iterator \<Rightarrow> 's \<Rightarrow> fault + ('s \<times> 'a word forward_iterator)" where
  "range_for entry_size body it e s =
     (if fi_equal it e then Inr (s, it)
      else (case body (fi_deref it) s of
              Inl f \<Rightarrow> Inl f
            | Inr s' \<Rightarrow>
                (case fi_increment entry_size it of
                   Inl f \<Rightarrow> Inl f
                 | Inr it' \<Rightarrow> range_for entry_size body it' e s')))"
  by pat_completeness auto
termination
  apply (relation "measure (\<lambda>(entry_size, body, it, e, s). unat (fi_index e - fi_index it))")
   apply simp
  apply (auto simp: fi_increment_def fi_equal_def index_distance_decreases
      split: sum.splits if_splits)
  done

declare range_for.simps [simp del]

text \<open>\<^verbatim>\<open>nested_group_base::begin()\<close> and \<^verbatim>\<open>end()\<close>, given the two values read from the
  dimension header. The end iterator holds a null pointer.\<close>

definition nested_begin ::
  "dimension_layout \<Rightarrow> byte_range \<Rightarrow> nat \<Rightarrow> 'a::len word forward_iterator" where
  "nested_begin L g bl =
     \<lparr>fi_ptr = addressof g + dim_size L, fi_index = 0, fi_block_length = bl, fi_end = end_ptr g\<rparr>"

definition nested_end ::
  "byte_range \<Rightarrow> 'a::len word \<Rightarrow> nat \<Rightarrow> 'a word forward_iterator" where
  "nested_end g n bl =
     \<lparr>fi_ptr = 0, fi_index = n, fi_block_length = bl, fi_end = end_ptr g\<rparr>"

text \<open>The loop \<^verbatim>\<open>for(const auto entry : *this)\<close> of a nested group: the header is
  checked, \<^verbatim>\<open>blockLength\<close> and \<^verbatim>\<open>numInGroup\<close> are read from it, and the iterator's
  index has the type of \<^verbatim>\<open>numInGroup\<close>. It returns the final state and the pointer of
  the iterator when the loop ends.\<close>

definition nested_group_for ::
  "bool \<Rightarrow> endian \<Rightarrow> endian \<Rightarrow> dimension_layout \<Rightarrow> (entry \<Rightarrow> fault + nat) \<Rightarrow> mem \<Rightarrow> byte_range
     \<Rightarrow> (entry \<Rightarrow> 's \<Rightarrow> fault + 's) \<Rightarrow> 's \<Rightarrow> fault + ('s \<times> nat)" where
  "nested_group_for hb native E L entry_size m g body s =
     (case group_get_header L g of
        Inl f \<Rightarrow> Inl f
      | Inr dimension \<Rightarrow>
          (case dim_blockLength hb native E L m dimension of
             Inl f \<Rightarrow> Inl f
           | Inr blp \<Rightarrow>
               (case dim_numInGroup hb native E L m dimension of
                  Inl f \<Rightarrow> Inl f
                | Inr n \<Rightarrow>
                    (let bl = prim_nat blp in
                     case n of
                       P8 v \<Rightarrow> map_sum id (\<lambda>(s', it). (s', fi_ptr it))
                         (range_for entry_size body (nested_begin L g bl) (nested_end g v bl) s)
                     | P16 v \<Rightarrow> map_sum id (\<lambda>(s', it). (s', fi_ptr it))
                         (range_for entry_size body (nested_begin L g bl) (nested_end g v bl) s)
                     | P32 v \<Rightarrow> map_sum id (\<lambda>(s', it). (s', fi_ptr it))
                         (range_for entry_size body (nested_begin L g bl) (nested_end g v bl) s)
                     | P64 v \<Rightarrow> map_sum id (\<lambda>(s', it). (s', fi_ptr it))
                         (range_for entry_size body (nested_begin L g bl) (nested_end g v bl) s)))))"

text \<open>\<^verbatim>\<open>nested_group_base::operator()(size_bytes_tag)\<close>: the header's size plus the sizes
  of the entries, accumulated in a \<^verbatim>\<open>std::size_t\<close>.\<close>

definition nested_group_size_bytes ::
  "bool \<Rightarrow> endian \<Rightarrow> endian \<Rightarrow> dimension_layout \<Rightarrow> (entry \<Rightarrow> fault + nat) \<Rightarrow> mem \<Rightarrow> byte_range
     \<Rightarrow> fault + nat" where
  "nested_group_size_bytes hb native E L entry_size m g =
     (case group_get_header L g of
        Inl f \<Rightarrow> Inl f
      | Inr dimension \<Rightarrow>
          map_sum id fst
            (nested_group_for hb native E L entry_size m g
               (\<lambda>entry size. case entry_size entry of
                                Inl f \<Rightarrow> Inl f
                              | Inr n \<Rightarrow> Inr ((size + n) mod 2 ^ 64))
               (dim_size L)))"

text \<open>Visiting the entries with the forward iterator: the loop above with a body that
  records each entry it is given.\<close>

definition nested_group_visit ::
  "bool \<Rightarrow> endian \<Rightarrow> endian \<Rightarrow> dimension_layout \<Rightarrow> (entry \<Rightarrow> fault + nat) \<Rightarrow> mem \<Rightarrow> byte_range
     \<Rightarrow> fault + (entry list \<times> nat)" where
  "nested_group_visit hb native E L entry_size m g =
     nested_group_for hb native E L entry_size m g (\<lambda>entry seen. Inr (seen @ [entry])) []"

text \<open>\<^verbatim>\<open>detail::get_dynamic_field_view(view, prev)\<close>: the member after the group
  \<^verbatim>\<open>prev\<close> starts at \<^verbatim>\<open>prev(addressof_tag{}) + prev(size_bytes_tag{})\<close>.\<close>

definition get_dynamic_field_view :: "byte_range \<Rightarrow> nat \<Rightarrow> nat \<Rightarrow> byte_range" where
  "get_dynamic_field_view view prev_address prev_size_bytes =
     \<lparr>addressof = prev_address + prev_size_bytes, end_ptr = end_ptr view\<rparr>"

text \<open>
  A well-formed run of entries, in the words of the specification: \<open>k\<close> entries, the first
  at \<open>p\<close>, each followed directly by the next, each with a size (a \<^verbatim>\<open>std::size_t\<close>) that
  its entry class can compute and that fits before \<open>e\<close>, the end of the buffer.
  \<open>entries_layout\<close> gives these entries and the address after the last one; it is \<open>None\<close>
  when the buffer is not well-formed.
\<close>

fun entries_layout ::
  "(entry \<Rightarrow> fault + nat) \<Rightarrow> nat \<Rightarrow> nat \<Rightarrow> nat \<Rightarrow> nat \<Rightarrow> (entry list \<times> nat) option" where
  "entries_layout entry_size bl e p 0 = Some ([], p)"
| "entries_layout entry_size bl e p (Suc k) =
     (case entry_size \<lparr>addressof = p, end_ptr = e, entry_block_length = bl\<rparr> of
        Inl f \<Rightarrow> None
      | Inr s \<Rightarrow>
          if s < 2 ^ 64 \<and> SBEPP_SIZE_CHECK p e 0 s
          then (case entries_layout entry_size bl e (p + s) k of
                  None \<Rightarrow> None
                | Some (es, q) \<Rightarrow>
                    Some (\<lparr>addressof = p, end_ptr = e, entry_block_length = bl\<rparr> # es, q))
          else None)"

text \<open>Running a loop body over a list of entries, stopping at the first fault.\<close>

fun fold_entries :: "(entry \<Rightarrow> 's \<Rightarrow> fault + 's) \<Rightarrow> entry list \<Rightarrow> 's \<Rightarrow> fault + 's" where
  "fold_entries body [] s = Inr s"
| "fold_entries body (x # xs) s =
     (case body x s of Inl f \<Rightarrow> Inl f | Inr s' \<Rightarrow> fold_entries body xs s')"

section \<open>Dynamic array: dynamic\_array\_ref\<close>

text \<open>
  \<^verbatim>\<open>dynamic_array_ref<Byte, Value, Length, E>\<close>: a byte range that starts with the
  length prefix, of the unsigned type \<^verbatim>\<open>size_type\<close> in byte order \<open>E\<close>, followed by the
  elements. An element is one byte (the size checks count \<^verbatim>\<open>sizeof(size_type) + count\<close>
  bytes for \<^verbatim>\<open>count\<close> elements), and an iterator is a pointer to an element: an address.
  Every operation takes the memory and returns its outcome: the value returned or the
  fault, together with the memory as it is when the operation returns or the assertion
  handler is called.
\<close>

record dynamic_array_ref = byte_range +
  length_type :: prim_type
  byte_order :: endian

type_synonym 'a outcome = "(fault + 'a) \<times> mem"

text \<open>Conversion of an unsigned value to \<^verbatim>\<open>size_type\<close>, as at a call with a
  \<^verbatim>\<open>size_type\<close> parameter: modulo \<open>2\<close> to the width.\<close>

fun to_prim :: "prim_type \<Rightarrow> nat \<Rightarrow> prim" where
  "to_prim T8 n = P8 (of_nat n)"
| "to_prim T16 n = P16 (of_nat n)"
| "to_prim T32 n = P32 (of_nat n)"
| "to_prim T64 n = P64 (of_nat n)"

definition to_size_type :: "dynamic_array_ref \<Rightarrow> nat \<Rightarrow> nat" where
  "to_size_type a n = n mod 2 ^ (8 * sizeof (length_type a))"

text \<open>\<^verbatim>\<open>size()\<close>, \<^verbatim>\<open>empty()\<close>\<close>

definition da_size :: "bool \<Rightarrow> endian \<Rightarrow> dynamic_array_ref \<Rightarrow> mem \<Rightarrow> fault + nat" where
  "da_size hb native a m =
     (case get_value hb native (byte_order a) (length_type a) m a 0 of
        Inl f \<Rightarrow> Inl f
      | Inr v \<Rightarrow> Inr (prim_nat v))"

definition da_empty :: "bool \<Rightarrow> endian \<Rightarrow> dynamic_array_ref \<Rightarrow> mem \<Rightarrow> fault + bool" where
  "da_empty hb native a m =
     (case da_size hb native a m of Inl f \<Rightarrow> Inl f | Inr n \<Rightarrow> Inr (n = 0))"

text \<open>\<^verbatim>\<open>data_unchecked()\<close>, \<^verbatim>\<open>data_checked()\<close>, \<^verbatim>\<open>begin()\<close>, \<^verbatim>\<open>end()\<close>, \<^verbatim>\<open>data()\<close>,
  \<^verbatim>\<open>operator[]\<close> (the address of the element)\<close>

definition da_data_unchecked :: "dynamic_array_ref \<Rightarrow> nat" where
  "da_data_unchecked a = addressof a + sizeof (length_type a)"

definition da_data_checked :: "bool \<Rightarrow> endian \<Rightarrow> dynamic_array_ref \<Rightarrow> mem \<Rightarrow> fault + nat" where
  "da_data_checked hb native a m =
     (case da_size hb native a m of
        Inl f \<Rightarrow> Inl f
      | Inr n \<Rightarrow>
          if SBEPP_SIZE_CHECK (addressof a) (end_ptr a) 0 (sizeof (length_type a) + n)
          then Inr (da_data_unchecked a)
          else Inl assertion_failed)"



definition da_data :: "bool \<Rightarrow> endian \<Rightarrow> dynamic_array_ref \<Rightarrow> mem \<Rightarrow> fault + nat" where
  "da_data hb native a m =
     (case da_empty hb native a m of
        Inl f \<Rightarrow> Inl f
      | Inr emp \<Rightarrow> if emp then Inl assertion_failed else da_data_checked hb native a m)"

definition da_at :: "bool \<Rightarrow> endian \<Rightarrow> dynamic_array_ref \<Rightarrow> mem \<Rightarrow> nat \<Rightarrow> fault + nat" where
  "da_at hb native a m pos =
     (case da_size hb native a m of
        Inl f \<Rightarrow> Inl f
      | Inr n \<Rightarrow>
          if pos < n
          then (case da_data hb native a m of Inl f \<Rightarrow> Inl f | Inr d \<Rightarrow> Inr (d + pos))
          else Inl assertion_failed)"

text \<open>\<^verbatim>\<open>resize(count, default_init)\<close>: the size check for the new span, then the write
  of the length prefix.\<close>

definition da_resize_default_init ::
  "bool \<Rightarrow> endian \<Rightarrow> dynamic_array_ref \<Rightarrow> mem \<Rightarrow> nat \<Rightarrow> unit outcome" where
  "da_resize_default_init hb native a m count =
     (let c = to_size_type a count
      in if SBEPP_SIZE_CHECK (addressof a) (end_ptr a) 0 (sizeof (length_type a) + c)
         then (Inr (), set_primitive hb native (byte_order a) m (addressof a)
                         (to_prim (length_type a) c))
         else (Inl assertion_failed, m))"

text \<open>The loop \<^verbatim>\<open>for(auto i = old_size; i != count; i++) operator[](i) = value\<close>, entered
  only when \<^verbatim>\<open>count > old_size\<close>: over the indices from \<^verbatim>\<open>old_size\<close> up to
  \<^verbatim>\<open>count\<close>.\<close>

fun da_init_elements ::
  "bool \<Rightarrow> endian \<Rightarrow> dynamic_array_ref \<Rightarrow> byte \<Rightarrow> nat list \<Rightarrow> mem \<Rightarrow> unit outcome" where
  "da_init_elements hb native a v [] m = (Inr (), m)"
| "da_init_elements hb native a v (i # is) m =
     (case da_at hb native a m i of
        Inl f \<Rightarrow> (Inl f, m)
      | Inr p \<Rightarrow> da_init_elements hb native a v is (m(p := v)))"

text \<open>\<^verbatim>\<open>resize(count, value)\<close>; \<^verbatim>\<open>resize(count)\<close> is the same with the
  value-initialised element \<^verbatim>\<open>{}\<close>, the zero byte.\<close>

definition da_resize_value ::
  "bool \<Rightarrow> endian \<Rightarrow> dynamic_array_ref \<Rightarrow> mem \<Rightarrow> nat \<Rightarrow> byte \<Rightarrow> unit outcome" where
  "da_resize_value hb native a m count v =
     (let c = to_size_type a count
      in case da_size hb native a m of
           Inl f \<Rightarrow> (Inl f, m)
         | Inr old_size \<Rightarrow>
             (case da_resize_default_init hb native a m c of
                (Inl f, m1) \<Rightarrow> (Inl f, m1)
              | (Inr u, m1) \<Rightarrow>
                  if c > old_size
                  then da_init_elements hb native a v [old_size..<c] m1
                  else (Inr (), m1)))"

definition da_resize :: "bool \<Rightarrow> endian \<Rightarrow> dynamic_array_ref \<Rightarrow> mem \<Rightarrow> nat \<Rightarrow> unit outcome" where
  "da_resize hb native a m count = da_resize_value hb native a m count 0"


















text \<open>A buffer that is large enough for \<open>n\<close> elements: the array is not null and the
  length prefix with \<open>n\<close> elements ends at or before the end of the buffer (an address,
  below \<open>2\<^sup>6\<^sup>4\<close>).\<close>

definition buffer_fits :: "dynamic_array_ref \<Rightarrow> nat \<Rightarrow> bool" where
  "buffer_fits a n \<longleftrightarrow>
     addressof a \<noteq> 0 \<and> end_ptr a < 2 ^ 64
     \<and> addressof a + sizeof (length_type a) + n \<le> end_ptr a"


definition forget :: "'a outcome \<Rightarrow> unit outcome" where
  "forget r = (map_sum id (\<lambda>x. ()) (fst r), snd r)"





text \<open>
  What an operation can have done to the bytes before the first element, the length prefix
  among them: nothing, or they are as a write of a length \<open>c\<close> that passed its size
  check leaves them.
\<close>

definition same_prefix :: "dynamic_array_ref \<Rightarrow> mem \<Rightarrow> mem \<Rightarrow> bool" where
  "same_prefix a m' m \<longleftrightarrow> (\<forall>x<da_data_unchecked a. m' x = m x)"

definition checked_commit :: "bool \<Rightarrow> endian \<Rightarrow> dynamic_array_ref \<Rightarrow> mem \<Rightarrow> mem \<Rightarrow> bool" where
  "checked_commit hb native a m m' \<longleftrightarrow>
     same_prefix a m' m
     \<or> (\<exists>c. c < 2 ^ (8 * sizeof (length_type a))
            \<and> SBEPP_SIZE_CHECK (addressof a) (end_ptr a) 0 (sizeof (length_type a) + c)
            \<and> same_prefix a m'
                 (set_primitive hb native (byte_order a) m (addressof a)
                    (to_prim (length_type a) c)))"

section \<open>Size validation: size\_bytes\_checked\_visitor and size\_bytes\_checked\<close>

text \<open>
  The visitor is driven over a view by \<^verbatim>\<open>visit\<close> and \<^verbatim>\<open>visit_children\<close>. What it reads
  from the views it is given is: the size of a header (\<^verbatim>\<open>size_bytes(get_header(v))\<close>),
  the header's \<^verbatim>\<open>blockLength\<close>, the entries of a group, the members of a message or of
  an entry, and \<^verbatim>\<open>size_bytes(d)\<close> of a data member. The model gives the visitor the
  view as the tree of these values, as decoded from the buffer under the schema: a
  group carries its header's size and block length and its \<^verbatim>\<open>numInGroup\<close> entries, an
  entry is the list of its members, and a data member carries the size of its length
  prefix and the length stored there. The view's own debug-only end pointer is taken to
  cover every byte the traversal reads; the budget \<^verbatim>\<open>size\<close> is what limits the
  visitor.
\<close>

datatype member =
  Field
| Group nat nat "member list list"
| Data nat nat

datatype view =
  Message_view nat nat "member list"
| Group_view nat nat "member list list"

text \<open>\<^verbatim>\<open>dynamic_array_ref::operator()(size_bytes_tag)\<close>:
  \<^verbatim>\<open>sizeof(size_type) + size()\<close>, a \<^verbatim>\<open>std::size_t\<close>.\<close>

definition data_size_bytes :: "nat \<Rightarrow> nat \<Rightarrow> nat" where
  "data_size_bytes prefix n = (prefix + n) mod 2 ^ 64"

text \<open>The visitor's members \<^verbatim>\<open>size\<close>, \<^verbatim>\<open>valid\<close> and \<^verbatim>\<open>group_block_length\<close>.\<close>

record visitor =
  v_size :: nat
  v_valid :: bool
  v_group_block_length :: nat


text \<open>Each member function returns its result with the visitor as it leaves it.\<close>

definition validate_and_subtract :: "visitor \<Rightarrow> nat \<Rightarrow> bool \<times> visitor" where
  "validate_and_subtract v n =
     (let v' = (if v_size v < n then v\<lparr>v_valid := False\<rparr> else v\<lparr>v_size := v_size v - n\<rparr>)
      in (v_valid v', v'))"

definition set_group_block_length :: "visitor \<Rightarrow> nat \<Rightarrow> nat \<times> visitor" where
  "set_group_block_length v block_length =
     (v_group_block_length v, v\<lparr>v_group_block_length := block_length\<rparr>)"

definition is_valid :: "visitor \<Rightarrow> bool" where
  "is_valid v = v_valid v"


definition on_data :: "visitor \<Rightarrow> nat \<Rightarrow> bool \<times> visitor" where
  "on_data v d_size_bytes =
     (case validate_and_subtract v d_size_bytes of (ok, v') \<Rightarrow> (\<not> ok, v'))"

definition on_field :: "visitor \<Rightarrow> bool \<times> visitor" where
  "on_field v = (False, v)"

text \<open>
  Modelled from the spec: \<^verbatim>\<open>visit_children\<close> of a message and of an entry is generated
  code, missing from the runtime. By the spec it calls \<^verbatim>\<open>on_field\<close>, \<^verbatim>\<open>on_group\<close> and
  \<^verbatim>\<open>on_data\<close> per member, in schema declaration order, where a callback's result means
  ``stop''. That is \<open>visit_children_level\<close> (with \<open>on_member\<close>, the callback a member
  selects); whether the dispatch stops at the first \<^verbatim>\<open>true\<close> or calls every callback and
  combines the results is the parameter \<open>stop_early\<close>.

  The other three functions are the runtime's: \<^verbatim>\<open>on_group\<close> and \<^verbatim>\<open>on_entry\<close> of the
  visitor, and \<open>visit_children_group\<close>, the \<^verbatim>\<open>operator()(visit_children_tag, v, c)\<close> of
  the two group bases, which calls \<^verbatim>\<open>on_entry\<close> for each entry and stops at the first
  that returns \<^verbatim>\<open>true\<close>. They call each other, so the five are defined together.
\<close>

fun on_member :: "bool \<Rightarrow> visitor \<Rightarrow> member \<Rightarrow> bool \<times> visitor"
  and on_group :: "bool \<Rightarrow> visitor \<Rightarrow> nat \<Rightarrow> nat \<Rightarrow> member list list \<Rightarrow> bool \<times> visitor"
  and visit_children_group :: "bool \<Rightarrow> visitor \<Rightarrow> member list list \<Rightarrow> bool \<times> visitor"
  and on_entry :: "bool \<Rightarrow> visitor \<Rightarrow> member list \<Rightarrow> bool \<times> visitor"
  and visit_children_level :: "bool \<Rightarrow> visitor \<Rightarrow> member list \<Rightarrow> bool \<times> visitor"
  where
  "on_member stop_early v Field = on_field v"
| "on_member stop_early v (Group header_size block_length entries) =
     on_group stop_early v header_size block_length entries"
| "on_member stop_early v (Data prefix n) = on_data v (data_size_bytes prefix n)"
| "on_group stop_early v header_size block_length entries =
     (case validate_and_subtract v header_size of
        (ok, v1) \<Rightarrow>
          if \<not> ok then (True, v1)
          else (case set_group_block_length v1 block_length of
                  (prev_block_length, v2) \<Rightarrow>
                    (case visit_children_group stop_early v2 entries of
                       (r, v3) \<Rightarrow>
                         (case set_group_block_length v3 prev_block_length of
                            (b, v4) \<Rightarrow> (\<not> is_valid v4, v4)))))"
| "visit_children_group stop_early v [] = (False, v)"
| "visit_children_group stop_early v (e # es) =
     (case on_entry stop_early v e of
        (r, v') \<Rightarrow> if r then (True, v') else visit_children_group stop_early v' es)"
| "on_entry stop_early v e =
     (case validate_and_subtract v (v_group_block_length v) of
        (ok, v1) \<Rightarrow>
          if \<not> ok then (True, v1)
          else (case visit_children_level stop_early v1 e of (r, v2) \<Rightarrow> (\<not> is_valid v2, v2)))"
| "visit_children_level stop_early v [] = (False, v)"
| "visit_children_level stop_early v (x # xs) =
     (case on_member stop_early v x of
        (r, v') \<Rightarrow>
          if r \<and> stop_early then (True, v')
          else (case visit_children_level stop_early v' xs of (r', v'') \<Rightarrow> (r \<or> r', v'')))"

text \<open>\<^verbatim>\<open>on_message\<close> returns nothing; the visitor it leaves is its result.\<close>

definition on_message :: "bool \<Rightarrow> visitor \<Rightarrow> nat \<Rightarrow> nat \<Rightarrow> member list \<Rightarrow> visitor" where
  "on_message stop_early v header_size block_length members =
     (case validate_and_subtract v header_size of
        (ok, v1) \<Rightarrow>
          if \<not> ok then v1
          else (case validate_and_subtract v1 block_length of
                  (ok', v2) \<Rightarrow>
                    if \<not> ok' then v2
                    else snd (visit_children_level stop_early v2 members)))"

text \<open>Modelled from the spec: \<^verbatim>\<open>view(visit_tag{}, visitor, c)\<close> is generated code; for a
  message it calls \<^verbatim>\<open>on_message\<close> and for a group \<^verbatim>\<open>on_group\<close>, with the view
  itself.\<close>

fun visit :: "bool \<Rightarrow> view \<Rightarrow> visitor \<Rightarrow> visitor" where
  "visit stop_early (Message_view header_size block_length members) v =
     on_message stop_early v header_size block_length members"
| "visit stop_early (Group_view header_size block_length entries) v =
     snd (on_group stop_early v header_size block_length entries)"








chapter \<open>Properties\<close>

section \<open>Primitive codec\<close>

lemma bit_of_le_bytes:
  "bit (of_le_bytes bs :: 'a::len word) n \<longleftrightarrow>
     n < LENGTH('a) \<and> n div 8 < length bs \<and> bit (bs ! (n div 8)) (n mod 8)"
proof (induction bs arbitrary: n)
  case Nil
  then show ?case by simp
next
  case (Cons b bs)
  show ?case
  proof (cases "n < 8")
    case True
    then show ?thesis
      by (auto simp: bit_simps Cons.IH dest: bit_imp_le_length)
  next
    case False
    then have d: "n div 8 = Suc ((n - 8) div 8)" and m: "(n - 8) mod 8 = n mod 8"
      by (simp_all add: le_div_geq le_mod_geq)
    from False show ?thesis
      by (auto simp: bit_simps Cons.IH d m dest: bit_imp_le_length)
  qed
qed

lemma length_le_bytes [simp]: "length (le_bytes k w) = k"
  by (simp add: le_bytes_def)

lemma of_le_bytes_le_bytes:
  "LENGTH('a::len) \<le> 8 * k \<Longrightarrow> of_le_bytes (le_bytes k (w :: 'a word)) = w"
  apply (rule bit_word_eqI)
  apply (simp add: bit_of_le_bytes le_bytes_def bit_simps)
  apply (auto simp: less_mult_imp_div_less mult.commute)
  done

lemma of_native_bytes_native_bytes:
  "LENGTH('a::len) \<le> 8 * k \<Longrightarrow> of_native_bytes native (native_bytes native k (w :: 'a word)) = w"
  by (simp add: of_native_bytes_def native_bytes_def of_le_bytes_le_bytes)

lemma bit_of_le_bytes_rev_le_bytes:
  "bit (of_le_bytes (rev (le_bytes k w)) :: 'a::len word) n \<longleftrightarrow>
     n < LENGTH('a) \<and> n div 8 < k \<and> bit w (8 * (k - 1 - n div 8) + n mod 8)"
  by (auto simp: bit_of_le_bytes rev_nth le_bytes_def bit_simps Suc_diff_Suc
      simp flip: diff_diff_add)

lemma mask_consts16: "(0x00FF::16 word) = mask 8" "(0xFF00::16 word) = push_bit 8 (mask 8)"
  by (simp_all add: mask_eq_exp_minus_1)

lemma mask_consts32:
  "(0x000000FF::32 word) = mask 8" "(0x0000FF00::32 word) = push_bit 8 (mask 8)"
  "(0x00FF0000::32 word) = push_bit 16 (mask 8)" "(0xFF000000::32 word) = push_bit 24 (mask 8)"
  by (simp_all add: mask_eq_exp_minus_1)

lemma mask_consts64:
  "(0x00000000000000FF::64 word) = mask 8" "(0x000000000000FF00::64 word) = push_bit 8 (mask 8)"
  "(0x0000000000FF0000::64 word) = push_bit 16 (mask 8)"
  "(0x00000000FF000000::64 word) = push_bit 24 (mask 8)"
  "(0x000000FF00000000::64 word) = push_bit 32 (mask 8)"
  "(0x0000FF0000000000::64 word) = push_bit 40 (mask 8)"
  "(0x00FF000000000000::64 word) = push_bit 48 (mask 8)"
  "(0xFF00000000000000::64 word) = push_bit 56 (mask 8)"
  by (simp_all add: mask_eq_exp_minus_1)

lemma bit_byteswap16:
  "bit (byteswap16 v) n \<longleftrightarrow> n < 16 \<and> bit v (8 * (1 - n div 8) + n mod 8)"
proof (cases "n < 16")
  case False
  then show ?thesis by (auto dest: bit_imp_le_length)
next
  case True
  define q r where "q = n div 8" and "r = n mod 8"
  then have n: "n = 8 * q + r" and r: "r < 8" by simp_all
  with True have "q < 2" by simp
  then consider "q = 0" | "q = 1" by linarith
  then show ?thesis
    unfolding byteswap16_def mask_consts16 q_def[symmetric] r_def[symmetric]
    using r by cases (auto simp: n bit_simps)
qed

lemma bit_byteswap32:
  "bit (byteswap32 v) n \<longleftrightarrow> n < 32 \<and> bit v (8 * (3 - n div 8) + n mod 8)"
proof (cases "n < 32")
  case False
  then show ?thesis by (auto dest: bit_imp_le_length)
next
  case True
  define q r where "q = n div 8" and "r = n mod 8"
  then have n: "n = 8 * q + r" and r: "r < 8" by simp_all
  with True have "q < 4" by simp
  then consider "q = 0" | "q = 1" | "q = 2" | "q = 3" by linarith
  then show ?thesis
    unfolding byteswap32_def mask_consts32 q_def[symmetric] r_def[symmetric]
    using r by cases (auto simp: n bit_simps)
qed

lemma bit_byteswap64:
  "bit (byteswap64 v) n \<longleftrightarrow> n < 64 \<and> bit v (8 * (7 - n div 8) + n mod 8)"
proof (cases "n < 64")
  case False
  then show ?thesis by (auto dest: bit_imp_le_length)
next
  case True
  define q r where "q = n div 8" and "r = n mod 8"
  then have n: "n = 8 * q + r" and r: "r < 8" by simp_all
  with True have "q < 8" by simp
  then consider "q = 0" | "q = 1" | "q = 2" | "q = 3" | "q = 4" | "q = 5" | "q = 6" | "q = 7"
    by linarith
  then show ?thesis
    unfolding byteswap64_def mask_consts64 q_def[symmetric] r_def[symmetric]
    using r by cases (auto simp: n bit_simps)
qed

text \<open>Each overload reverses the bytes of the object representation.\<close>

lemma byteswap16_rev: "byteswap16 v = of_le_bytes (rev (le_bytes 2 v))"
  by (rule bit_word_eqI) (auto simp: bit_byteswap16 bit_of_le_bytes_rev_le_bytes)

lemma byteswap32_rev: "byteswap32 v = of_le_bytes (rev (le_bytes 4 v))"
  by (rule bit_word_eqI) (auto simp: bit_byteswap32 bit_of_le_bytes_rev_le_bytes)

lemma byteswap64_rev: "byteswap64 v = of_le_bytes (rev (le_bytes 8 v))"
  by (rule bit_word_eqI) (auto simp: bit_byteswap64 bit_of_le_bytes_rev_le_bytes)

lemma byteswap16_involution: "byteswap16 (byteswap16 v) = v"
proof (rule bit_word_eqI)
  fix n assume "n < LENGTH(16)"
  then have n: "n < 16" by simp
  then have "n div 8 < 2" by simp
  then have "8 * (1 - n div 8) + n mod 8 < 16"
    "(8 * (1 - n div 8) + n mod 8) div 8 = 1 - n div 8"
    "8 * (1 - (1 - n div 8)) + n mod 8 = n"
    by (simp_all add: algebra_simps)
  with n show "bit (byteswap16 (byteswap16 v)) n = bit v n"
    by (simp add: bit_byteswap16)
qed

lemma byteswap32_involution: "byteswap32 (byteswap32 v) = v"
proof (rule bit_word_eqI)
  fix n assume "n < LENGTH(32)"
  then have n: "n < 32" by simp
  then have "n div 8 < 4" by simp
  then have "8 * (3 - n div 8) + n mod 8 < 32"
    "(8 * (3 - n div 8) + n mod 8) div 8 = 3 - n div 8"
    "8 * (3 - (3 - n div 8)) + n mod 8 = n"
    by (simp_all add: algebra_simps)
  with n show "bit (byteswap32 (byteswap32 v)) n = bit v n"
    by (simp add: bit_byteswap32)
qed

lemma byteswap64_involution: "byteswap64 (byteswap64 v) = v"
proof (rule bit_word_eqI)
  fix n assume "n < LENGTH(64)"
  then have n: "n < 64" by simp
  then have "n div 8 < 8" by simp
  then have "8 * (7 - n div 8) + n mod 8 < 64"
    "(8 * (7 - n div 8) + n mod 8) div 8 = 7 - n div 8"
    "8 * (7 - (7 - n div 8)) + n mod 8 = n"
    by (simp_all add: algebra_simps)
  with n show "bit (byteswap64 (byteswap64 v)) n = bit v n"
    by (simp add: bit_byteswap64)
qed

lemma byteswap_involution: "byteswap (byteswap v) = v"
  by (cases v) (simp_all add: byteswap16_involution byteswap32_involution byteswap64_involution)

lemma type_of_byteswap [simp]: "type_of (byteswap v) = type_of v"
  by (cases v) simp_all

lemma length_object_bytes [simp]: "length (object_bytes native v) = sizeof (type_of v)"
  by (cases v) (simp_all add: native_bytes_def)

lemma of_object_bytes_object_bytes:
  "of_object_bytes native (type_of v) (object_bytes native v) = v"
  by (cases v) (simp_all add: of_native_bytes_native_bytes)

lemma load_store_bytes: "n = length bs \<Longrightarrow> load_bytes (store_bytes m p bs) p n = bs"
  by (auto simp: load_bytes_def store_bytes_def intro: nth_equalityI)

lemma store_bytes_other:
  "a < p \<or> p + length bs \<le> a \<Longrightarrow> store_bytes m p bs a = m a"
  by (auto simp: store_bytes_def)

lemma get_set_primitive:
  "T = type_of v \<Longrightarrow> get_primitive hb native E T (set_primitive hb native E m ptr v) ptr = v"
  by (simp add: get_primitive_def set_primitive_def Let_def load_store_bytes
      of_object_bytes_object_bytes byteswap_involution
      of_object_bytes_object_bytes [of native "byteswap v", simplified])

lemma set_primitive_other:
  "a < ptr \<or> ptr + sizeof (type_of v) \<le> a \<Longrightarrow> set_primitive hb native E m ptr v a = m a"
  by (simp add: set_primitive_def Let_def store_bytes_other)

text \<open>
  Claim C2. For every fixed-width integer value (1, 2, 4 or 8 bytes), every wire byte order
  \<open>E\<close> and every native byte order (so both when they match and when they differ), and
  in both build variants: \<^verbatim>\<open>set_primitive\<close> followed by \<^verbatim>\<open>get_primitive\<close> of the same type
  and byte order at the same address returns the value written, bit for bit. In the
  \<^verbatim>\<open>memcpy\<close> variant this rests on the byte swap being an involution.
\<close>

theorem primitive_round_trip:
  "get_primitive hb native E (type_of v) (set_primitive hb native E m ptr v) ptr = v
   \<and> byteswap (byteswap v) = v"
  by (simp add: get_set_primitive byteswap_involution)

theorem primitive_round_trip_witness:
  "get_primitive False little big T32 (set_primitive False little big (\<lambda>a. 0) 16 (P32 0x12345678)) 16
     = P32 0x12345678
   \<and> get_primitive True big little T16 (set_primitive True big little (\<lambda>a. 0) 16 (P16 0xBEEF)) 16
     = P16 0xBEEF"
  using primitive_round_trip [of False little big "P32 0x12345678" "\<lambda>a. 0" 16]
    primitive_round_trip [of True big little "P16 0xBEEF" "\<lambda>a. 0" 16]
  by simp

section \<open>Optional scalar wrappers\<close>





section \<open>Bitset\<close>

lemma int_shl_lt32 [simp]: "n < 32 \<Longrightarrow> int_shl x n = Inr (push_bit n x)"
  by (simp add: int_shl_def)

lemma scast_exp_int:
  "n < 31 \<Longrightarrow> 32 < LENGTH('a::len) \<Longrightarrow> (scast (2 ^ n :: 32 word) :: 'a word) = 2 ^ n"
  by (rule bit_word_eqI) (auto simp: bit_simps)

text \<open>Where the \<^verbatim>\<open>int\<close> shift does not reach the sign bit, or \<open>T\<close> is no wider than
  \<^verbatim>\<open>int\<close>, both operations do what their names say.\<close>

lemma get_bit_small:
  fixes bits :: "'a::len word"
  assumes "n < 31 \<or> (n = 31 \<and> LENGTH('a) \<le> 32)"
  shows "get_bit bits n = Inr (bit bits n)"
proof -
  from assms have n: "n < 32" by auto
  have "(ucast bits AND push_bit n (1 :: 32 word)) \<noteq> 0 \<longleftrightarrow> bit bits n" if "LENGTH('a) \<le> 32"
    using n that by (simp add: push_bit_of_1 and_exp_eq_0_iff_not_bit bit_simps)
  moreover have "(bits AND scast (push_bit n (1 :: 32 word))) \<noteq> 0 \<longleftrightarrow> bit bits n"
    if "\<not> LENGTH('a) \<le> 32"
    using assms that by (simp add: scast_exp_int and_exp_eq_0_iff_not_bit)
  ultimately show ?thesis
    using n by (simp add: get_bit_def)
qed

lemma set_bit_small:
  fixes bits :: "'a::len word"
  assumes "n < 31 \<or> (n = 31 \<and> LENGTH('a) \<le> 32)"
  shows "\<exists>r. set_bit bits n b = Inr r \<and>
           (\<forall>k. bit r k \<longleftrightarrow> (if k = n then b \<and> n < LENGTH('a) else bit bits k))"
proof -
  from assms have n: "n < 32" by auto
  show ?thesis
  proof (cases "LENGTH('a) \<le> 32")
    case True
    with n show ?thesis
      by (cases b) (auto simp: set_bit_def bit_simps dest: bit_imp_le_length)
  next
    case False
    with assms have "n < 31" by auto
    with False show ?thesis
      by (cases b) (auto simp: set_bit_def bit_simps min_def dest: bit_imp_le_length)
  qed
qed

text \<open>
  Claim C10 (the code departs from it). On a 64-bit bitset and choice index 31 the \<^verbatim>\<open>int\<close>
  mask \<^verbatim>\<open>1 << 31\<close> is sign-extended: setting bit 31 of an empty set also sets bits 32 to
  63, clearing bit 31 of a full set also clears bits 32 to 63, and reading bit 31 answers for
  bits 31 to 63 together. For an index of 32 or more the shift is undefined.
\<close>

theorem bitset64_index31_clobbers:
  "set_bit (0 :: 64 word) 31 True = Inr 0xFFFFFFFF80000000
   \<and> set_bit (0xFFFFFFFFFFFFFFFF :: 64 word) 31 False = Inr 0x7FFFFFFF
   \<and> get_bit (0x100000000 :: 64 word) 31 = Inr True
   \<and> get_bit (0x100000000 :: 64 word) 32 = Inl undefined_behaviour
   \<and> set_bit (0 :: 64 word) 32 True = Inl undefined_behaviour"
  by (simp add: set_bit_def get_bit_def int_shl_def)

section \<open>Cursor position after the last field of a level\<close>




section \<open>Flat group size\<close>

lemma size_check_within:
  assumes "SBEPP_SIZE_CHECK b e 0 n" and "n < 2 ^ 64" and "off + sz \<le> n"
  shows "SBEPP_SIZE_CHECK b e off sz"
  using assms by (simp add: SBEPP_SIZE_CHECK_def)

lemma load_bytes_numeral:
  "load_bytes m p (Suc 0) = [m p]"
  "load_bytes m p 1 = [m p]"
  "load_bytes m p 2 = [m p, m (p + 1)]"
  "load_bytes m p 4 = [m p, m (p + 1), m (p + 2), m (p + 3)]"
  "load_bytes m p 8 = [m p, m (p + 1), m (p + 2), m (p + 3), m (p + 4), m (p + 5), m (p + 6), m (p + 7)]"
  by (simp_all add: load_bytes_def eval_nat_numeral)

lemma load_bytes_cong:
  "(\<And>a. p \<le> a \<Longrightarrow> a < p + n \<Longrightarrow> m a = m' a) \<Longrightarrow> load_bytes m p n = load_bytes m' p n"
  by (simp add: load_bytes_def)

lemma get_primitive_cong:
  "(\<And>a. p \<le> a \<Longrightarrow> a < p + sizeof T \<Longrightarrow> m a = m' a) \<Longrightarrow>
     get_primitive hb native E T m p = get_primitive hb native E T m' p"
  using load_bytes_cong [of p "sizeof T" m m'] by (simp add: get_primitive_def)

lemma type_of_of_object_bytes [simp]: "type_of (of_object_bytes native T bs) = T"
  by (cases T) simp_all

lemma type_of_get_primitive [simp]: "type_of (get_primitive hb native E T m p) = T"
  by (simp add: get_primitive_def Let_def)

text \<open>Where the dimension header fits and the product is representable in the type it is
  computed in, the size is the header's size plus \<open>numInGroup * blockLength\<close>; it is
  read from the header alone.\<close>

lemma flat_group_size_bytes_formula:
  assumes ok: "layout_ok L"
    and fits: "SBEPP_SIZE_CHECK (addressof g) (end_ptr g) 0 (dim_size L)"
    and n: "n = get_primitive hb native E (numInGroup_type L) m (addressof g + numInGroup_offset L)"
    and bl: "bl = get_primitive hb native E (blockLength_type L) m (addressof g + blockLength_offset L)"
    and prod: "promoted_mul n bl = Inr (prim_nat n * prim_nat bl)"
    and sum: "dim_size L + prim_nat n * prim_nat bl < 2 ^ 64"
  shows "flat_group_size_bytes hb native E L m g = Inr (dim_size L + prim_nat n * prim_nat bl)"
proof -
  from ok fits have c:
    "SBEPP_SIZE_CHECK (addressof g) (end_ptr g) (numInGroup_offset L) (sizeof (numInGroup_type L))"
    "SBEPP_SIZE_CHECK (addressof g) (end_ptr g) (blockLength_offset L) (sizeof (blockLength_type L))"
    by (auto simp: layout_ok_def intro: size_check_within)
  show ?thesis
    using fits c prod sum
    by (simp add: flat_group_size_bytes_def group_get_header_def dim_numInGroup_def
        dim_blockLength_def get_value_def n [symmetric] bl [symmetric])
qed

lemma flat_group_size_bytes_header_only:
  assumes ok: "layout_ok L"
    and same: "\<And>a. addressof g \<le> a \<Longrightarrow> a < addressof g + dim_size L \<Longrightarrow> m a = m' a"
  shows "flat_group_size_bytes hb native E L m g = flat_group_size_bytes hb native E L m' g"
proof -
  have "get_primitive hb native E (numInGroup_type L) m (addressof g + numInGroup_offset L)
      = get_primitive hb native E (numInGroup_type L) m' (addressof g + numInGroup_offset L)"
    "get_primitive hb native E (blockLength_type L) m (addressof g + blockLength_offset L)
      = get_primitive hb native E (blockLength_type L) m' (addressof g + blockLength_offset L)"
    using ok by (auto simp: layout_ok_def intro!: get_primitive_cong same)
  then show ?thesis
    by (simp add: flat_group_size_bytes_def group_get_header_def dim_numInGroup_def
        dim_blockLength_def get_value_def)
qed

text \<open>
  Claim C7 (the code departs from it). With the usual dimension header, \<^verbatim>\<open>blockLength\<close>
  and \<^verbatim>\<open>numInGroup\<close> both \<^verbatim>\<open>uint16\<close>, the product is computed in \<^verbatim>\<open>int\<close>. A header
  that fits in its buffer and holds \<open>blockLength = numInGroup = 65535\<close> makes it overflow,
  which is undefined, where the claim gives \<open>4 + 65535 * 65535\<close>. With a 32-bit
  \<^verbatim>\<open>numInGroup = 131072\<close> and \<open>blockLength = 32768\<close> the product wraps around to 0 in
  \<^verbatim>\<open>unsigned int\<close>, and the size returned is the 6 bytes of the header.
\<close>

theorem flat_group_size_bytes_overflow:
  "flat_group_size_bytes False little little
     \<lparr>dim_size = 4, blockLength_offset = 0, blockLength_type = T16,
      numInGroup_offset = 2, numInGroup_type = T16\<rparr>
     (\<lambda>a. 0xFF) \<lparr>addressof = 16, end_ptr = 1000\<rparr> = Inl undefined_behaviour
   \<and> flat_group_size_bytes False little little
     \<lparr>dim_size = 6, blockLength_offset = 0, blockLength_type = T16,
      numInGroup_offset = 2, numInGroup_type = T32\<rparr>
     (\<lambda>a. if a = 17 then 0x80 else if a = 20 then 0x02 else 0)
     \<lparr>addressof = 16, end_ptr = 1000\<rparr> = Inr 6"
  by (simp add: flat_group_size_bytes_def group_get_header_def dim_numInGroup_def
      dim_blockLength_def get_value_def SBEPP_SIZE_CHECK_def size_t_of_diff_def
      get_primitive_def load_bytes_numeral of_native_bytes_def promoted_mul_def)

section \<open>Nested group: forward iteration\<close>

lemma entries_layout_length:
  "entries_layout esz bl e p k = Some (es, q) \<Longrightarrow> length es = k"
  by (induction k arbitrary: p es) (auto split: sum.splits if_splits option.splits)

lemma entries_layout_le:
  "entries_layout esz bl e p k = Some (es, q) \<Longrightarrow> p \<le> q"
  by (induction k arbitrary: p es) (fastforce split: sum.splits if_splits option.splits)+

text \<open>Each entry of the layout starts where the previous one ends.\<close>

lemma entries_layout_chain:
  "entries_layout esz bl e p k = Some (es, q) \<Longrightarrow> i < length es \<Longrightarrow>
     \<exists>s. esz (es ! i) = Inr s
       \<and> addressof (es ! i) + s = (if Suc i < length es then addressof (es ! Suc i) else q)
       \<and> end_ptr (es ! i) = e \<and> entry_block_length (es ! i) = bl"
proof (induction k arbitrary: p es i)
  case 0
  then show ?case by simp
next
  case (Suc k)
  let ?x = "\<lparr>addressof = p, end_ptr = e, entry_block_length = bl\<rparr>"
  from Suc.prems(1) obtain s es' where s: "esz ?x = Inr s"
    and rest: "entries_layout esz bl e (p + s) k = Some (es', q)" and es: "es = ?x # es'"
    by (auto split: sum.splits if_splits option.splits)
  show ?case
  proof (cases i)
    case 0
    show ?thesis
    proof (cases es')
      case Nil
      with rest have "k = 0" using entries_layout_length by fastforce
      with rest have "q = p + s" by simp
      with 0 s es Nil show ?thesis by simp
    next
      case (Cons y ys)
      with rest obtain k' where k: "k = Suc k'"
        using entries_layout_length [OF rest] by (cases k) auto
      with rest Cons have "addressof y = p + s"
        by (auto split: sum.splits if_splits option.splits)
      with 0 s es Cons show ?thesis by simp
    qed
  next
    case (Suc j)
    with Suc.prems(2) es have "j < length es'" by simp
    from Suc.IH [OF rest this] Suc es show ?thesis by auto
  qed
qed

lemma entries_layout_first:
  "entries_layout esz bl e p k = Some (es, q) \<Longrightarrow>
     (if es = [] then q = p else addressof (es ! 0) = p)"
  by (cases k) (auto split: sum.splits if_splits option.splits)

text \<open>The loop over a well-formed run of entries is the fold of its body over them, and it
  ends with the iterator's pointer after the last entry and its index at the end index.\<close>

lemma range_for_layout:
  fixes it e :: "'a::len word forward_iterator"
  assumes "entries_layout esz (fi_block_length it) (fi_end it) (fi_ptr it)
             (unat (fi_index e - fi_index it)) = Some (es, q)"
  shows "range_for esz body it e s =
           map_sum id (\<lambda>s'. (s', it\<lparr>fi_ptr := q, fi_index := fi_index e\<rparr>)) (fold_entries body es s)"
  using assms
proof (induction k \<equiv> "unat (fi_index e - fi_index it)" arbitrary: it es s)
  case 0
  then have "fi_index e = fi_index it"
    by (simp add: unat_eq_0)
  with 0 show ?case
    by (subst range_for.simps) (simp add: fi_equal_def)
next
  case (Suc k)
  let ?x = "\<lparr>addressof = fi_ptr it, end_ptr = fi_end it, entry_block_length = fi_block_length it\<rparr>"
  from Suc.hyps(2) have ne: "fi_index e \<noteq> fi_index it"
    by auto
  from Suc.prems Suc.hyps(2) [symmetric] obtain sz es' where sz: "esz ?x = Inr sz"
    and chk: "SBEPP_SIZE_CHECK (fi_ptr it) (fi_end it) 0 sz"
    and rest: "entries_layout esz (fi_block_length it) (fi_end it) (fi_ptr it + sz) k = Some (es', q)"
    and es: "es = ?x # es'"
    by (auto split: sum.splits if_splits option.splits)
  let ?it' = "it\<lparr>fi_ptr := fi_ptr it + sz, fi_index := fi_index it + 1\<rparr>"
  have inc: "fi_increment esz it = Inr ?it'"
    using sz chk by (simp add: fi_increment_def fi_deref_def)
  have k: "k = unat (fi_index e - fi_index ?it')"
  proof -
    from ne have "fi_index e - fi_index it \<noteq> 0" by simp
    then have "unat (fi_index e - fi_index it - 1) = unat (fi_index e - fi_index it) - 1"
      by (simp add: unat_minus_one)
    with Suc.hyps(2) [symmetric] show ?thesis
      by (simp add: diff_diff_eq add.commute)
  qed
  have rest': "entries_layout esz (fi_block_length ?it') (fi_end ?it') (fi_ptr ?it')
                 (unat (fi_index e - fi_index ?it')) = Some (es', q)"
    using rest k by simp
  have IH: "range_for esz body ?it' e s' =
      map_sum id (\<lambda>s''. (s'', ?it'\<lparr>fi_ptr := q, fi_index := fi_index e\<rparr>)) (fold_entries body es' s')"
    for s'
    by (rule Suc.hyps(1) [OF k rest'])
  show ?case
    using ne
    by (subst range_for.simps)
      (simp add: fi_equal_def fi_deref_def inc es IH split: sum.splits)
qed

lemma entries_layout_numeral:
  "entries_layout esz bl e p (numeral k) = entries_layout esz bl e p (Suc (pred_numeral k))"
  by (simp add: numeral_eq_Suc)

lemma fold_entries_record:
  "fold_entries (\<lambda>entry seen. Inr (seen @ [entry])) es acc = Inr (acc @ es)"
  by (induction es arbitrary: acc) simp_all

lemma fold_entries_size:
  "entries_layout esz bl e p k = Some (es, q) \<Longrightarrow> s < 2 ^ 64 \<Longrightarrow>
     fold_entries (\<lambda>entry size. case esz entry of Inl f \<Rightarrow> Inl f
                                 | Inr n \<Rightarrow> Inr ((size + n) mod 2 ^ 64)) es s
       = Inr ((s + (q - p)) mod 2 ^ 64)"
proof (induction k arbitrary: p es s)
  case 0
  then show ?case by simp
next
  case (Suc k)
  let ?x = "\<lparr>addressof = p, end_ptr = e, entry_block_length = bl\<rparr>"
  from Suc.prems(1) obtain sz es' where sz: "esz ?x = Inr sz"
    and rest: "entries_layout esz bl e (p + sz) k = Some (es', q)" and es: "es = ?x # es'"
    by (auto split: sum.splits if_splits option.splits)
  from entries_layout_le [OF rest] have le: "p + sz \<le> q" .
  have lt: "(s + sz) mod 2 ^ 64 < (2 :: nat) ^ 64"
    by simp
  have "((s + sz) mod 2 ^ 64 + (q - (p + sz))) mod 2 ^ 64 = (s + sz + (q - (p + sz))) mod 2 ^ 64"
    by (rule mod_add_left_eq)
  also from le have "s + sz + (q - (p + sz)) = s + (q - p)"
    by simp
  finally show ?case
    using sz es Suc.IH [OF rest lt] by simp
qed

lemma nested_group_for_layout:
  assumes ok: "layout_ok L"
    and fits: "SBEPP_SIZE_CHECK (addressof g) (end_ptr g) 0 (dim_size L)"
    and wf: "entries_layout esz
        (prim_nat (get_primitive hb native E (blockLength_type L) m (addressof g + blockLength_offset L)))
        (end_ptr g) (addressof g + dim_size L)
        (prim_nat (get_primitive hb native E (numInGroup_type L) m (addressof g + numInGroup_offset L)))
       = Some (es, q)"
  shows "nested_group_for hb native E L esz m g body s
           = map_sum id (\<lambda>s'. (s', q)) (fold_entries body es s)"
proof -
  from ok fits have c:
    "SBEPP_SIZE_CHECK (addressof g) (end_ptr g) (numInGroup_offset L) (sizeof (numInGroup_type L))"
    "SBEPP_SIZE_CHECK (addressof g) (end_ptr g) (blockLength_offset L) (sizeof (blockLength_type L))"
    by (auto simp: layout_ok_def intro: size_check_within)
  let ?n = "get_primitive hb native E (numInGroup_type L) m (addressof g + numInGroup_offset L)"
  let ?bl = "prim_nat (get_primitive hb native E (blockLength_type L) m
                         (addressof g + blockLength_offset L))"
  have loop: "map_sum id (\<lambda>(s', it). (s', fi_ptr it))
        (range_for esz body (nested_begin L g ?bl) (nested_end g v ?bl) s)
      = map_sum id (\<lambda>s'. (s', q)) (fold_entries body es s)"
    if "unat v = prim_nat ?n" for v :: "'b::len word"
  proof -
    have "entries_layout esz (fi_block_length (nested_begin L g ?bl :: 'b word forward_iterator))
        (fi_end (nested_begin L g ?bl :: 'b word forward_iterator))
        (fi_ptr (nested_begin L g ?bl :: 'b word forward_iterator))
        (unat (fi_index (nested_end g v ?bl) - fi_index (nested_begin L g ?bl :: 'b word forward_iterator)))
       = Some (es, q)"
      using wf that by (simp add: nested_begin_def nested_end_def)
    from range_for_layout [OF this, of body s] show ?thesis
      by (cases "fold_entries body es s") simp_all
  qed
  show ?thesis
    using fits c
    by (cases ?n)
      (simp_all add: nested_group_for_def group_get_header_def dim_numInGroup_def
        dim_blockLength_def get_value_def Let_def loop)
qed

text \<open>
  Claim C8. Take a nested group whose dimension header fits in the buffer and whose
  \<open>numInGroup = n\<close> entries are well-formed: laid out one after another from the end of
  the header, each with a size its entry class computes (block length plus its nested
  content) that fits in the buffer; \<open>es\<close> are these entries and \<open>q\<close> is the address after
  the last. Then iterating with the forward iterator from \<^verbatim>\<open>begin()\<close> to \<^verbatim>\<open>end()\<close>
  returns, visits exactly the \<open>n\<close> entries \<open>es\<close> in order, each entry starts where the
  previous one starts plus the previous one's computed size (whatever the header's
  \<^verbatim>\<open>blockLength\<close>), the first starts after the header, and the pointer ends at \<open>q\<close>, which
  is the group's address plus its \<^verbatim>\<open>size_bytes()\<close>: where the member after the group
  starts.
\<close>

theorem nested_group_forward_iteration:
  assumes ok: "layout_ok L"
    and fits: "SBEPP_SIZE_CHECK (addressof g) (end_ptr g) 0 (dim_size L)"
    and n: "n = prim_nat (get_primitive hb native E (numInGroup_type L) m
                            (addressof g + numInGroup_offset L))"
    and bl: "bl = prim_nat (get_primitive hb native E (blockLength_type L) m
                              (addressof g + blockLength_offset L))"
    and wf: "entries_layout esz bl (end_ptr g) (addressof g + dim_size L) n = Some (es, q)"
    and q: "q < 2 ^ 64"
  shows "nested_group_visit hb native E L esz m g = Inr (es, q)
    \<and> length es = n
    \<and> (\<forall>i<length es. \<exists>s. esz (es ! i) = Inr s
          \<and> addressof (es ! i) + s = (if Suc i < length es then addressof (es ! Suc i) else q))
    \<and> (if es = [] then q = addressof g + dim_size L
        else addressof (es ! 0) = addressof g + dim_size L)
    \<and> (\<exists>sz. nested_group_size_bytes hb native E L esz m g = Inr sz
          \<and> addressof (get_dynamic_field_view view (addressof g) sz) = q)"
proof -
  note wf' = wf [unfolded n bl]
  have visit: "nested_group_visit hb native E L esz m g = Inr (es, q)"
    by (simp add: nested_group_visit_def nested_group_for_layout [OF ok fits wf']
        fold_entries_record)
  have len: "length es = n"
    using wf by (rule entries_layout_length)
  have chain: "\<forall>i<length es. \<exists>s. esz (es ! i) = Inr s
          \<and> addressof (es ! i) + s = (if Suc i < length es then addressof (es ! Suc i) else q)"
    using entries_layout_chain [OF wf] by blast
  have first: "if es = [] then q = addressof g + dim_size L
        else addressof (es ! 0) = addressof g + dim_size L"
    using wf by (rule entries_layout_first)
  from entries_layout_le [OF wf] have le: "addressof g + dim_size L \<le> q" .
  from ok have d: "dim_size L < 2 ^ 64"
    by (simp add: layout_ok_def)
  from le q have "(dim_size L + (q - (addressof g + dim_size L))) mod 2 ^ 64 = q - addressof g"
    by simp
  then have size: "nested_group_size_bytes hb native E L esz m g = Inr (q - addressof g)"
    using fits
    by (simp add: nested_group_size_bytes_def group_get_header_def
        nested_group_for_layout [OF ok fits wf'] fold_entries_size [OF wf' d])
  from le have "addressof (get_dynamic_field_view view (addressof g) (q - addressof g)) = q"
    by (simp add: get_dynamic_field_view_def)
  with visit len chain first size show ?thesis
    by blast
qed

theorem nested_group_forward_iteration_witness:
  "nested_group_visit False little little
     \<lparr>dim_size = 4, blockLength_offset = 0, blockLength_type = T16,
      numInGroup_offset = 2, numInGroup_type = T16\<rparr>
     (\<lambda>x. Inr (if addressof x = 20 then 5 else 3))
     (\<lambda>a. if a = 16 \<or> a = 18 then 2 else 0) \<lparr>addressof = 16, end_ptr = 100\<rparr>
   = Inr ([\<lparr>addressof = 20, end_ptr = 100, entry_block_length = 2\<rparr>,
           \<lparr>addressof = 25, end_ptr = 100, entry_block_length = 2\<rparr>], 28)
   \<and> (\<exists>sz. nested_group_size_bytes False little little
     \<lparr>dim_size = 4, blockLength_offset = 0, blockLength_type = T16,
      numInGroup_offset = 2, numInGroup_type = T16\<rparr>
     (\<lambda>x. Inr (if addressof x = 20 then 5 else 3))
     (\<lambda>a. if a = 16 \<or> a = 18 then 2 else 0) \<lparr>addressof = 16, end_ptr = 100\<rparr> = Inr sz
     \<and> addressof (get_dynamic_field_view \<lparr>addressof = 8, end_ptr = 100\<rparr> 16 sz) = 28)"
proof -
  let ?L = "\<lparr>dim_size = 4, blockLength_offset = 0, blockLength_type = T16,
      numInGroup_offset = 2, numInGroup_type = T16\<rparr>"
  let ?m = "\<lambda>a :: nat. if a = 16 \<or> a = 18 then 2 else 0 :: byte"
  let ?g = "\<lparr>addressof = 16, end_ptr = 100\<rparr>"
  let ?esz = "\<lambda>x :: entry. Inr (if addressof x = 20 then 5 else 3) :: fault + nat"
  have ok: "layout_ok ?L"
    by (simp add: layout_ok_def)
  have fits: "SBEPP_SIZE_CHECK (addressof ?g) (end_ptr ?g) 0 (dim_size ?L)"
    by (simp add: SBEPP_SIZE_CHECK_def size_t_of_diff_def)
  have "prim_nat (get_primitive False little little (numInGroup_type ?L) ?m
                    (addressof ?g + numInGroup_offset ?L)) = 2"
    by (simp add: get_primitive_def load_bytes_numeral of_native_bytes_def)
  then have n: "2 = prim_nat (get_primitive False little little (numInGroup_type ?L) ?m
                            (addressof ?g + numInGroup_offset ?L))"
    by (rule sym)
  have "prim_nat (get_primitive False little little (blockLength_type ?L) ?m
                    (addressof ?g + blockLength_offset ?L)) = 2"
    by (simp add: get_primitive_def load_bytes_numeral of_native_bytes_def)
  then have bl: "2 = prim_nat (get_primitive False little little (blockLength_type ?L) ?m
                            (addressof ?g + blockLength_offset ?L))"
    by (rule sym)
  have wf: "entries_layout ?esz 2 (end_ptr ?g) (addressof ?g + dim_size ?L) 2
      = Some ([\<lparr>addressof = 20, end_ptr = 100, entry_block_length = 2\<rparr>,
               \<lparr>addressof = 25, end_ptr = 100, entry_block_length = 2\<rparr>], 28)"
    by (simp add: entries_layout_numeral SBEPP_SIZE_CHECK_def size_t_of_diff_def)
  have q: "(28 :: nat) < 2 ^ 64" by simp
  note t = nested_group_forward_iteration [where L = ?L and g = ?g and hb = False
      and native = little and E = little and m = ?m and esz = ?esz and n = 2 and bl = 2
      and es = "[\<lparr>addressof = 20, end_ptr = 100, entry_block_length = 2\<rparr>,
                \<lparr>addressof = 25, end_ptr = 100, entry_block_length = 2\<rparr>]"
      and q = 28 and view = "\<lparr>addressof = 8, end_ptr = 100\<rparr>", OF ok fits n bl wf q]
  from t have a: "nested_group_visit False little little ?L ?esz ?m ?g
      = Inr ([\<lparr>addressof = 20, end_ptr = 100, entry_block_length = 2\<rparr>,
              \<lparr>addressof = 25, end_ptr = 100, entry_block_length = 2\<rparr>], 28)"
    by (rule conjunct1)
  have b: "\<exists>sz. nested_group_size_bytes False little little ?L ?esz ?m ?g = Inr sz
      \<and> addressof (get_dynamic_field_view \<lparr>addressof = 8, end_ptr = 100\<rparr> (addressof ?g) sz) = 28"
    by (rule conjunct2 [OF conjunct2 [OF conjunct2 [OF conjunct2 [OF t]]]])
  from a b show ?thesis by simp
qed

section \<open>Dynamic array\<close>

lemma size_check_fits:
  "buffer_fits a n \<Longrightarrow> k \<le> sizeof (length_type a) + n \<Longrightarrow>
     SBEPP_SIZE_CHECK (addressof a) (end_ptr a) 0 k"
proof -
  assume f: "buffer_fits a n" and k: "k \<le> sizeof (length_type a) + n"
  then have "k \<le> end_ptr a - addressof a" and "end_ptr a - addressof a < 2 ^ 64"
    and "addressof a \<le> end_ptr a" and "addressof a \<noteq> 0"
    by (auto simp: buffer_fits_def)
  moreover have "k mod 2 ^ 64 \<le> k" by simp
  ultimately show ?thesis
    by (simp add: SBEPP_SIZE_CHECK_def size_t_of_diff_def)
qed

lemma size_check_iff:
  "addressof a \<noteq> 0 \<Longrightarrow> addressof a \<le> end_ptr a \<Longrightarrow> end_ptr a < 2 ^ 64 \<Longrightarrow> k < 2 ^ 64 \<Longrightarrow>
     SBEPP_SIZE_CHECK (addressof a) (end_ptr a) 0 k \<longleftrightarrow> addressof a + k \<le> end_ptr a"
  by (auto simp: SBEPP_SIZE_CHECK_def size_t_of_diff_def)

lemma type_of_to_prim [simp]: "type_of (to_prim T n) = T"
  by (cases T) simp_all

lemma prim_nat_to_prim: "n < 2 ^ (8 * sizeof T) \<Longrightarrow> prim_nat (to_prim T n) = n"
  by (cases T) (simp_all add: unat_of_nat)

lemma prim_nat_bound: "prim_nat v < 2 ^ (8 * sizeof (type_of v))"
proof (cases v)
  case (P8 x)
  then show ?thesis using unsigned_less [of x, where ?'a = nat] by simp
next
  case (P16 x)
  then show ?thesis using unsigned_less [of x, where ?'a = nat] by simp
next
  case (P32 x)
  then show ?thesis using unsigned_less [of x, where ?'a = nat] by simp
next
  case (P64 x)
  then show ?thesis using unsigned_less [of x, where ?'a = nat] by simp
qed

lemma sizeof_le_8: "sizeof T \<le> 8" and sizeof_pos: "0 < sizeof T"
  by (cases T; simp)+

lemma to_size_type_id: "n < 2 ^ (8 * sizeof (length_type a)) \<Longrightarrow> to_size_type a n = n"
  by (simp add: to_size_type_def)


text \<open>Reading the size: it depends on the bytes of the prefix only, and after the prefix
  has been written it is the value written.\<close>

lemma da_size_frame:
  "(\<And>x. addressof a \<le> x \<Longrightarrow> x < addressof a + sizeof (length_type a) \<Longrightarrow> m' x = m x) \<Longrightarrow>
     da_size hb native a m' = da_size hb native a m"
  using get_primitive_cong [of "addressof a" "length_type a" m' m hb native "byte_order a"]
  by (simp add: da_size_def get_value_def)

lemma da_size_bound: "da_size hb native a m = Inr k \<Longrightarrow> k < 2 ^ (8 * sizeof (length_type a))"
  using prim_nat_bound [of "get_primitive hb native (byte_order a) (length_type a) m (addressof a)"]
  by (auto simp: da_size_def get_value_def split: if_splits)

lemma da_size_set_length:
  assumes "buffer_fits a 0" and "c < 2 ^ (8 * sizeof (length_type a))"
  shows "da_size hb native a
           (set_primitive hb native (byte_order a) m (addressof a) (to_prim (length_type a) c))
         = Inr c"
  using assms size_check_fits [of a 0 "sizeof (length_type a)"]
  by (simp add: da_size_def get_value_def get_set_primitive prim_nat_to_prim)

lemma buffer_fits_mono: "buffer_fits a n \<Longrightarrow> k \<le> n \<Longrightarrow> buffer_fits a k"
  by (simp add: buffer_fits_def)

lemma da_resize_default_init_ok:
  assumes "buffer_fits a c" and "c < 2 ^ (8 * sizeof (length_type a))"
  shows "da_resize_default_init hb native a m c =
           (Inr (), set_primitive hb native (byte_order a) m (addressof a)
                      (to_prim (length_type a) c))"
  using assms size_check_fits [of a c "sizeof (length_type a) + c"]
  by (simp add: da_resize_default_init_def to_size_type_id)

lemma da_at_ok:
  assumes "buffer_fits a n" and "da_size hb native a m = Inr n" and "i < n"
  shows "da_at hb native a m i = Inr (da_data_unchecked a + i)"
  using assms size_check_fits [of a n "sizeof (length_type a) + n"]
  by (simp add: da_at_def da_data_def da_empty_def da_data_checked_def)

lemma da_init_elements_ok:
  assumes "buffer_fits a n" and "da_size hb native a m = Inr n" and "\<forall>i\<in>set is. i < n"
  shows "da_init_elements hb native a v is m =
           (Inr (), \<lambda>x. if x \<in> (\<lambda>i. da_data_unchecked a + i) ` set is then v else m x)"
  using assms
proof (induction "is" arbitrary: m)
  case Nil
  then show ?case by simp
next
  case (Cons i "is")
  let ?m = "m(da_data_unchecked a + i := v)"
  from Cons.prems have at: "da_at hb native a m i = Inr (da_data_unchecked a + i)"
    by (simp add: da_at_ok)
  have "da_size hb native a ?m = da_size hb native a m"
    by (rule da_size_frame) (simp add: da_data_unchecked_def)
  with Cons.prems have sz: "da_size hb native a ?m = Inr n" by simp
  from Cons.prems(3) have rest: "\<forall>i\<in>set is. i < n" by simp
  have "da_init_elements hb native a v is ?m =
      (Inr (), \<lambda>x. if x \<in> (\<lambda>i. da_data_unchecked a + i) ` set is then v else ?m x)"
    using Cons.prems(1) sz rest by (rule Cons.IH)
  moreover have "(\<lambda>x. if x \<in> (\<lambda>i. da_data_unchecked a + i) ` set is then v else ?m x)
      = (\<lambda>x. if x \<in> (\<lambda>i. da_data_unchecked a + i) ` set (i # is) then v else m x)"
    by (rule ext) auto
  ultimately show ?case
    using at by simp
qed

text \<open>
  Claim C3. Let the buffer be large enough for \<open>n\<close> elements, \<open>n\<close> a value of the
  length type, and let the array have size \<open>k\<close>. Then \<^verbatim>\<open>resize(n)\<close> returns, and
  afterwards \<^verbatim>\<open>size()\<close> is \<open>n\<close>; the elements at the indices below \<open>min k n\<close> hold the
  bytes they held, and when the array grows the new elements at \<open>k, \<dots>, n - 1\<close> hold the
  value-initialised element, the zero byte. With \<^verbatim>\<open>resize(n, value)\<close> they hold
  \<^verbatim>\<open>value\<close>, and with \<^verbatim>\<open>resize(n, default_init)\<close> no element is written: the new
  elements are left default-initialised, holding the bytes the buffer held.
\<close>

theorem dynamic_array_resize:
  assumes fits: "buffer_fits a n" and n: "n < 2 ^ (8 * sizeof (length_type a))"
    and k: "da_size hb native a m = Inr k"
  shows "(\<exists>m'. da_resize hb native a m n = (Inr (), m')
            \<and> da_size hb native a m' = Inr n
            \<and> (\<forall>i<n. da_at hb native a m' i = Inr (da_data_unchecked a + i))
            \<and> (\<forall>i<min k n. m' (da_data_unchecked a + i) = m (da_data_unchecked a + i))
            \<and> (\<forall>i. k \<le> i \<and> i < n \<longrightarrow> m' (da_data_unchecked a + i) = 0))
       \<and> (\<exists>m'. da_resize_value hb native a m n v = (Inr (), m')
            \<and> da_size hb native a m' = Inr n
            \<and> (\<forall>i<min k n. m' (da_data_unchecked a + i) = m (da_data_unchecked a + i))
            \<and> (\<forall>i. k \<le> i \<and> i < n \<longrightarrow> m' (da_data_unchecked a + i) = v))
       \<and> (\<exists>m'. da_resize_default_init hb native a m n = (Inr (), m')
            \<and> da_size hb native a m' = Inr n
            \<and> (\<forall>i. m' (da_data_unchecked a + i) = m (da_data_unchecked a + i)))"
proof -
  let ?m1 = "set_primitive hb native (byte_order a) m (addressof a) (to_prim (length_type a) n)"
  from fits have fits0: "buffer_fits a 0"
    by (rule buffer_fits_mono) simp
  have r: "da_resize_default_init hb native a m n = (Inr (), ?m1)"
    using fits n by (rule da_resize_default_init_ok)
  have s1: "da_size hb native a ?m1 = Inr n"
    using fits0 n by (rule da_size_set_length)
  have e1: "?m1 (da_data_unchecked a + i) = m (da_data_unchecked a + i)" for i
    by (simp add: set_primitive_other da_data_unchecked_def)
  have val: "\<exists>m'. da_resize_value hb native a m n w = (Inr (), m')
            \<and> da_size hb native a m' = Inr n
            \<and> (\<forall>i<n. da_at hb native a m' i = Inr (da_data_unchecked a + i))
            \<and> (\<forall>i<min k n. m' (da_data_unchecked a + i) = m (da_data_unchecked a + i))
            \<and> (\<forall>i. k \<le> i \<and> i < n \<longrightarrow> m' (da_data_unchecked a + i) = w)" for w
  proof (cases "k < n")
    case False
    then have "da_resize_value hb native a m n w = (Inr (), ?m1)"
      using k r n by (simp add: da_resize_value_def to_size_type_id)
    with s1 e1 False fits show ?thesis
      by (auto simp: da_at_ok)
  next
    case True
    let ?m2 = "\<lambda>x. if x \<in> (\<lambda>i. da_data_unchecked a + i) ` set [k..<n] then w else ?m1 x"
    have l: "da_init_elements hb native a w [k..<n] ?m1 = (Inr (), ?m2)"
      using fits s1 by (rule da_init_elements_ok) simp
    have "da_resize_value hb native a m n w = (Inr (), ?m2)"
      using k r n True l by (simp add: da_resize_value_def to_size_type_id)
    moreover have "da_size hb native a ?m2 = da_size hb native a ?m1"
      by (rule da_size_frame) (auto simp: da_data_unchecked_def)
    moreover have "\<forall>i<min k n. ?m2 (da_data_unchecked a + i) = m (da_data_unchecked a + i)"
      using e1 by auto
    moreover have "\<forall>i. k \<le> i \<and> i < n \<longrightarrow> ?m2 (da_data_unchecked a + i) = w"
      by auto
    ultimately show ?thesis
      using s1 fits by (auto simp: da_at_ok)
  qed
  from val [of 0] have A: "\<exists>m'. da_resize hb native a m n = (Inr (), m')
            \<and> da_size hb native a m' = Inr n
            \<and> (\<forall>i<n. da_at hb native a m' i = Inr (da_data_unchecked a + i))
            \<and> (\<forall>i<min k n. m' (da_data_unchecked a + i) = m (da_data_unchecked a + i))
            \<and> (\<forall>i. k \<le> i \<and> i < n \<longrightarrow> m' (da_data_unchecked a + i) = 0)"
    by (simp add: da_resize_def)
  from val [of v] have B: "\<exists>m'. da_resize_value hb native a m n v = (Inr (), m')
            \<and> da_size hb native a m' = Inr n
            \<and> (\<forall>i<min k n. m' (da_data_unchecked a + i) = m (da_data_unchecked a + i))
            \<and> (\<forall>i. k \<le> i \<and> i < n \<longrightarrow> m' (da_data_unchecked a + i) = v)"
    by blast
  from r s1 e1 have C: "\<exists>m'. da_resize_default_init hb native a m n = (Inr (), m')
            \<and> da_size hb native a m' = Inr n
            \<and> (\<forall>i. m' (da_data_unchecked a + i) = m (da_data_unchecked a + i))"
    by simp
  from A B C show ?thesis by blast
qed

theorem dynamic_array_resize_witness:
  "\<exists>m'. da_resize False little
            \<lparr>addressof = 16, end_ptr = 32, length_type = T8, byte_order = little\<rparr>
            (\<lambda>x. if x = 16 then 2 else 0xAA) 4 = (Inr (), m')
        \<and> da_size False little
            \<lparr>addressof = 16, end_ptr = 32, length_type = T8, byte_order = little\<rparr> m' = Inr 4
        \<and> m' 17 = 0xAA \<and> m' 18 = 0xAA \<and> m' 19 = 0 \<and> m' 20 = 0"
proof -
  let ?a = "\<lparr>addressof = 16, end_ptr = 32, length_type = T8, byte_order = little\<rparr>"
  let ?m = "\<lambda>x :: nat. if x = 16 then 2 else 0xAA :: byte"
  have fits: "buffer_fits ?a 4"
    by (simp add: buffer_fits_def)
  have n: "(4 :: nat) < 2 ^ (8 * sizeof (length_type ?a))"
    by simp
  have k: "da_size False little ?a ?m = Inr 2"
    by (simp add: da_size_def get_value_def SBEPP_SIZE_CHECK_def size_t_of_diff_def
        get_primitive_def load_bytes_numeral of_native_bytes_def)
  have d: "da_data_unchecked ?a = 17"
    by (simp add: da_data_unchecked_def)
  from dynamic_array_resize [where a = ?a and n = 4 and hb = False and native = little
      and m = ?m and k = 2, OF fits n k]
  obtain m' where r: "da_resize False little ?a ?m 4 = (Inr (), m')"
    and s: "da_size False little ?a m' = Inr 4"
    and old: "\<forall>i<min 2 4. m' (da_data_unchecked ?a + i) = ?m (da_data_unchecked ?a + i)"
    and new: "\<forall>i. 2 \<le> i \<and> i < 4 \<longrightarrow> m' (da_data_unchecked ?a + i) = 0"
    by blast
  from old [rule_format, of 0] old [rule_format, of 1] new [rule_format, of 2]
    new [rule_format, of 3]
  have "m' 17 = 0xAA" "m' 18 = 0xAA" "m' 19 = 0" "m' 20 = 0"
    by (simp_all add: d)
  with r s show ?thesis by blast
qed

section \<open>Dynamic array: size checks and mutation\<close>
















lemma fst_forget [simp]: "fst (forget r) = Inl f \<longleftrightarrow> fst r = Inl f"
  by (cases "fst r") (simp_all add: forget_def)

lemma snd_forget [simp]: "snd (forget r) = snd r"
  by (simp add: forget_def)









subsection \<open>The length prefix after an operation\<close>

lemma same_prefix_refl [simp]: "same_prefix a m m"
  by (simp add: same_prefix_def)





lemma checked_commit_refl [simp]: "checked_commit hb native a m m"
  by (simp add: checked_commit_def)

















lemma snd_case_outcome [simp]:
  "snd (case r of (Inl f, m2) \<Rightarrow> (Inl f, m2) | (Inr u, m2) \<Rightarrow> (Inr (g u), m2)) = snd r"
  by (cases r; cases "fst r") auto
















section \<open>Size validation\<close>















end
